theory Spec2Isabelle
  imports Main
begin

section \<open>Data model of \<^verbatim>\<open>src/src/index.ts\<close>\<close>

text \<open>
  The enum \<^verbatim>\<open>TravelType\<close> and the string-literal union \<^verbatim>\<open>BookingStatus\<close>
  (\<^verbatim>\<open>"booked" | "cancelled" | "pending"\<close>) are datatypes. The interface \<^verbatim>\<open>Booking\<close>
  is a record; its field \<^verbatim>\<open>id\<close> is called \<open>id_no\<close> here, since \<open>id\<close> is the identity
  function of HOL. The optional field \<^verbatim>\<open>mealPreference?: string\<close> is a \<open>string option\<close>,
  \<open>None\<close> standing for \<^verbatim>\<open>undefined\<close>.

  Numbers: the ids and the counter \<^verbatim>\<open>nextId\<close> are JavaScript numbers that only ever
  hold small non-negative integers, on which \<^verbatim>\<open>++\<close> is exact; they are modelled as
  unbounded \<open>int\<close>. A number passed to \<^verbatim>\<open>cancelBooking\<close> or \<^verbatim>\<open>displayBookings\<close>
  is an \<open>int\<close> too: a number that is not an integer equals no id.
\<close>

datatype TravelType = Flight | Train | Bus

datatype BookingStatus = Booked | Cancelled | Pending

record Booking =
  id_no :: int
  name :: string
  route :: "string \<times> string"
  travelType :: TravelType
  status :: BookingStatus
  mealPreference :: "string option"

text \<open>
  \<^verbatim>\<open>throw new Error(msg)\<close> is the only exception of the program; the value thrown is
  modelled by its message.
\<close>

datatype error = Error string

text \<open>
  The lines written by \<^verbatim>\<open>console.log\<close>. Each constructor stands for one template
  literal of the source and carries the values interpolated into it:
  \<^item> \<open>BookingCreated n a b\<close>: \<^verbatim>\<open>Booking created: ${name} - ${route[0]} to ${route[1]}\<close>
  \<^item> \<open>DisplayingAll\<close>: \<^verbatim>\<open>Displaying all bookings:\<close>
  \<^item> \<open>DisplayingIds ids\<close>: \<^verbatim>\<open>Displaying bookings with IDs: ${bookingIds.join(', ')}\<close>
  \<^item> \<open>IdNotFound i\<close>: \<^verbatim>\<open>Booking with ID ${id} not found\<close>
  \<^item> \<open>SummaryHeader\<close>: \<^verbatim>\<open>\n=== Booking Summary ===\<close>
  \<^item> \<open>TotalBookings n\<close>: \<^verbatim>\<open>Total bookings: ${bookings.length}\<close>
  \<^item> \<open>StatusCountsLine b c p\<close>: \<^verbatim>\<open>Booked: ${..}, Cancelled: ${..}, Pending: ${..}\<close>
  \<^item> \<open>BookingCancelled i\<close>: \<^verbatim>\<open>Booking ${id} cancelled\<close>
  \<^item> \<open>BookingNotFound i\<close>: \<^verbatim>\<open>Booking ${id} not found\<close>
  \<^item> \<open>BookingLine ..\<close>: the line of \<^verbatim>\<open>printBooking\<close>
  \<^item> \<open>Text s\<close>: any other line, written by a caller's callback.
\<close>

datatype console_line =
    BookingCreated string string string
  | DisplayingAll
  | DisplayingIds "int list"
  | IdNotFound int
  | SummaryHeader
  | TotalBookings nat
  | StatusCountsLine nat nat nat
  | BookingCancelled int
  | BookingNotFound int
  | BookingLine int string string string TravelType BookingStatus string
  | Text string

text \<open>
  The module-level state: \<^verbatim>\<open>let bookings: Booking[] = []\<close>, \<^verbatim>\<open>let nextId = 1\<close>, and
  the console the program writes to.
\<close>

record State =
  bookings :: "Booking list"
  nextId :: int
  console :: "console_line list"

definition initial :: State where
  "initial = \<lparr>bookings = [], nextId = 1, console = []\<rparr>"

definition log :: "console_line \<Rightarrow> State \<Rightarrow> State" where
  "log l st = st\<lparr>console := console st @ [l]\<rparr>"

section \<open>Operations\<close>

text \<open>
  \<^verbatim>\<open>throwInvalidRouteError(route)\<close>: the value it throws.
\<close>

definition throwInvalidRouteError :: "string \<times> string \<Rightarrow> error" where
  "throwInvalidRouteError route' =
     Error (''Invalid route: '' @ fst route' @ '' and '' @ snd route' @ '' cannot be the same'')"

text \<open>
  The truthiness of an optional string, as tested by \<^verbatim>\<open>seatType ? .. : ..\<close> and
  \<^verbatim>\<open>if (seatType)\<close>: \<^verbatim>\<open>undefined\<close> and the empty string are falsy, every other
  string is truthy.
\<close>

definition truthy :: "string option \<Rightarrow> bool" where
  "truthy s = (case s of None \<Rightarrow> False | Some v \<Rightarrow> v \<noteq> [])"

text \<open>
  \<^verbatim>\<open>bookTicket(name, route, seatType?)\<close>. The result is the thrown error or the returned
  booking, together with the state the call leaves behind. The throw comes before any
  assignment, so the state of a throwing call is the state it started from.
\<close>

definition bookTicket ::
  "string \<Rightarrow> string \<times> string \<Rightarrow> string option \<Rightarrow> State \<Rightarrow> (error + Booking) \<times> State" where
  "bookTicket name' route' seatType st =
     (if fst route' = snd route' then (Inl (throwInvalidRouteError route'), st)
      else
        let newBooking0 = \<lparr>id_no = nextId st, name = name', route = route',
                            travelType = Flight, status = Booked,
                            mealPreference = (if truthy seatType then None else Some ''Vegetarian'')\<rparr>;
            st1 = st\<lparr>nextId := nextId st + 1\<rparr>;
            newBooking = (if truthy seatType then newBooking0\<lparr>mealPreference := seatType\<rparr>
                          else newBooking0);
            st2 = st1\<lparr>bookings := bookings st1 @ [newBooking]\<rparr>;
            st3 = log (BookingCreated name' (fst route') (snd route')) st2
        in (Inr newBooking, st3))"

text \<open>
  \<^verbatim>\<open>printBooking(booking)\<close>; \<^verbatim>\<open>booking.mealPreference || "Not specified"\<close> replaces a
  falsy preference.
\<close>

definition printBooking :: "Booking \<Rightarrow> State \<Rightarrow> State" where
  "printBooking booking st =
     log (BookingLine (id_no booking) (name booking) (fst (route booking)) (snd (route booking))
            (travelType booking) (status booking)
            (if truthy (mealPreference booking) then the (mealPreference booking)
             else ''Not specified'')) st"

text \<open>
  \<^verbatim>\<open>displayBookings(...bookingIds)\<close>; \<^verbatim>\<open>bookings.find(b => b.id === id)\<close> is
  \<^const>\<open>List.find\<close>, the first match or \<open>None\<close>.
\<close>

definition displayBookings :: "int list \<Rightarrow> State \<Rightarrow> State" where
  "displayBookings bookingIds st =
     (if length bookingIds = 0 then
        fold (\<lambda>booking s. printBooking booking s) (bookings st) (log DisplayingAll st)
      else
        fold (\<lambda>i s. case List.find (\<lambda>b. id_no b = i) (bookings s) of
                       Some booking \<Rightarrow> printBooking booking s
                     | None \<Rightarrow> log (IdNotFound i) s)
             bookingIds (log (DisplayingIds bookingIds) st))"

text \<open>
  \<^verbatim>\<open>printSummary()\<close>. The object \<^verbatim>\<open>statusCounts\<close> is a record of three counters, and
  \<^verbatim>\<open>statusCounts[booking.status]++\<close> increments the one selected by the status.
\<close>

record StatusCounts =
  booked :: nat
  cancelled :: nat
  pending :: nat

fun increment :: "BookingStatus \<Rightarrow> StatusCounts \<Rightarrow> StatusCounts" where
  "increment Booked sc = sc\<lparr>booked := booked sc + 1\<rparr>"
| "increment Cancelled sc = sc\<lparr>cancelled := cancelled sc + 1\<rparr>"
| "increment Pending sc = sc\<lparr>pending := pending sc + 1\<rparr>"

definition statusCounts :: "State \<Rightarrow> StatusCounts" where
  "statusCounts st =
     fold (\<lambda>booking sc. increment (status booking) sc) (bookings st)
          \<lparr>booked = 0, cancelled = 0, pending = 0\<rparr>"

definition printSummary :: "State \<Rightarrow> State" where
  "printSummary st =
     (let st1 = log SummaryHeader st;
          st2 = log (TotalBookings (length (bookings st1))) st1;
          sc = statusCounts st2
      in log (StatusCountsLine (booked sc) (cancelled sc) (pending sc)) st2)"

text \<open>
  \<^verbatim>\<open>cancelBooking(bookingRef: number | Booking)\<close>. \<^verbatim>\<open>bookings.find\<close> returns a
  reference to the first element with the id, and the assignment to its \<^verbatim>\<open>status\<close>
  changes that element of the array: \<open>findIndex\<close> is the position of the element
  \<^verbatim>\<open>find\<close> returns.
\<close>

datatype BookingRef = RefNumber int | RefBooking Booking

fun refId :: "BookingRef \<Rightarrow> int" where
  "refId (RefNumber n) = n"
| "refId (RefBooking b) = id_no b"

fun findIndex :: "('a \<Rightarrow> bool) \<Rightarrow> 'a list \<Rightarrow> nat option" where
  "findIndex P [] = None"
| "findIndex P (x # xs) = (if P x then Some 0 else map_option Suc (findIndex P xs))"

definition cancelBooking :: "BookingRef \<Rightarrow> State \<Rightarrow> State" where
  "cancelBooking bookingRef st =
     (let i = refId bookingRef in
      case findIndex (\<lambda>b. id_no b = i) (bookings st) of
        Some k \<Rightarrow>
          log (BookingCancelled i)
            (st\<lparr>bookings := (bookings st)[k := (bookings st ! k)\<lparr>status := Cancelled\<rparr>]\<rparr>)
      | None \<Rightarrow> log (BookingNotFound i) st)"

text \<open>
  \<^verbatim>\<open>getBookingsByStatus(status, callback)\<close>. The callback is any function of the filtered
  array and the program state; whatever it yields (a new state, a thrown error) is what
  the call yields, since \<^verbatim>\<open>callback(result)\<close> is the last statement.
\<close>

definition getBookingsByStatus ::
  "BookingStatus \<Rightarrow> (Booking list \<Rightarrow> State \<Rightarrow> 'r) \<Rightarrow> State \<Rightarrow> 'r" where
  "getBookingsByStatus status' callback st =
     (let result = filter (\<lambda>booking. status booking = status') (bookings st)
      in callback result st)"

text \<open>
  The query as the specification words it: the sequence of the bookings whose status is
  the given one, in insertion order, returned directly.
\<close>

fun queryByStatus_spec :: "BookingStatus \<Rightarrow> Booking list \<Rightarrow> Booking list" where
  "queryByStatus_spec s [] = []"
| "queryByStatus_spec s (b # bs) =
     (if status b = s then b # queryByStatus_spec s bs else queryByStatus_spec s bs)"

section \<open>Sequences of calls\<close>

text \<open>
  A caller of the module makes a sequence of calls of its functions. A call of
  \<^verbatim>\<open>bookTicket\<close> that throws is caught by the caller, as the \<^verbatim>\<open>try\<close> block of the
  script does, and the sequence goes on. The callback of a \<^verbatim>\<open>getBookingsByStatus\<close>
  call in a sequence is one that only prints, like the one of the script.
\<close>

datatype call =
    CallBookTicket string "string \<times> string" "string option"
  | CallCancelBooking BookingRef
  | CallDisplayBookings "int list"
  | CallPrintSummary
  | CallGetBookingsByStatus BookingStatus "Booking list \<Rightarrow> console_line list"

fun step :: "call \<Rightarrow> State \<Rightarrow> State" where
  "step (CallBookTicket n r s) st = snd (bookTicket n r s st)"
| "step (CallCancelBooking ref) st = cancelBooking ref st"
| "step (CallDisplayBookings ids) st = displayBookings ids st"
| "step CallPrintSummary st = printSummary st"
| "step (CallGetBookingsByStatus s cb) st =
     getBookingsByStatus s (\<lambda>result st'. st'\<lparr>console := console st' @ cb result\<rparr>) st"

definition run :: "call list \<Rightarrow> State \<Rightarrow> State" where
  "run calls st = fold step calls st"

text \<open>
  The bookings returned by the successful \<^verbatim>\<open>bookTicket\<close> calls of a sequence, in the
  order of the calls.
\<close>

fun returned :: "call list \<Rightarrow> State \<Rightarrow> Booking list" where
  "returned [] st = []"
| "returned (c # cs) st =
     (case c of
        CallBookTicket n r s \<Rightarrow>
          (case fst (bookTicket n r s st) of
             Inr b \<Rightarrow> b # returned cs (step c st)
           | Inl e \<Rightarrow> returned cs (step c st))
      | _ \<Rightarrow> returned cs (step c st))"

text \<open>
  The example scenario of the specification: two bookings, a rejected one, and the
  cancellation of the first.
\<close>

definition example_calls :: "call list" where
  "example_calls =
     [CallBookTicket ''John Doe'' (''New York'', ''London'') None,
      CallBookTicket ''Jane Smith'' (''Paris'', ''Berlin'') (Some ''Business''),
      CallBookTicket ''X'' (''Tokyo'', ''Tokyo'') None,
      CallCancelBooking (RefNumber 1)]"

section \<open>Frame lemmas\<close>

text \<open>
  What each operation leaves alone. Printing touches the console only; the read-only
  operations leave \<open>bookings\<close> and \<open>nextId\<close> as they are.
\<close>

lemma log_simps [simp]:
  "bookings (log l st) = bookings st"
  "nextId (log l st) = nextId st"
  "console (log l st) = console st @ [l]"
  by (simp_all add: log_def)

lemma bookTicket_throws:
  "fst r = snd r \<Longrightarrow> bookTicket n r s st = (Inl (throwInvalidRouteError r), st)"
  by (simp add: bookTicket_def)

lemma bookTicket_returns:
  assumes "fst r \<noteq> snd r"
  shows "\<exists>b. bookTicket n r s st =
            (Inr b, st\<lparr>bookings := bookings st @ [b], nextId := nextId st + 1,
                       console := console st @ [BookingCreated n (fst r) (snd r)]\<rparr>)
          \<and> id_no b = nextId st \<and> name b = n \<and> route b = r \<and> travelType b = Flight
          \<and> status b = Booked
          \<and> mealPreference b = (if truthy s then s else Some ''Vegetarian'')"
  using assms by (simp add: bookTicket_def Let_def log_def)

lemma printBooking_simps [simp]:
  "bookings (printBooking b st) = bookings st"
  "nextId (printBooking b st) = nextId st"
  by (simp_all add: printBooking_def)

lemma fold_printBooking [simp]:
  "bookings (fold (\<lambda>booking s. printBooking booking s) bs st) = bookings st"
  "nextId (fold (\<lambda>booking s. printBooking booking s) bs st) = nextId st"
  by (induction bs arbitrary: st) simp_all

lemma fold_lookup [simp]:
  "bookings (fold (\<lambda>i s. case List.find (\<lambda>b. id_no b = i) (bookings s) of
                       Some booking \<Rightarrow> printBooking booking s
                     | None \<Rightarrow> log (IdNotFound i) s) ids st) = bookings st"
  "nextId (fold (\<lambda>i s. case List.find (\<lambda>b. id_no b = i) (bookings s) of
                       Some booking \<Rightarrow> printBooking booking s
                     | None \<Rightarrow> log (IdNotFound i) s) ids st) = nextId st"
  by (induction ids arbitrary: st) (simp_all split: option.splits)

lemma displayBookings_simps [simp]:
  "bookings (displayBookings ids st) = bookings st"
  "nextId (displayBookings ids st) = nextId st"
  by (simp_all add: displayBookings_def)

lemma printSummary_simps [simp]:
  "bookings (printSummary st) = bookings st"
  "nextId (printSummary st) = nextId st"
  by (simp_all add: printSummary_def Let_def)

lemma query_simps [simp]:
  "bookings (getBookingsByStatus s (\<lambda>result st'. st'\<lparr>console := console st' @ cb result\<rparr>) st) = bookings st"
  "nextId (getBookingsByStatus s (\<lambda>result st'. st'\<lparr>console := console st' @ cb result\<rparr>) st) = nextId st"
  by (simp_all add: getBookingsByStatus_def)

lemma findIndex_Some:
  "findIndex P xs = Some k \<Longrightarrow> k < length xs \<and> P (xs ! k) \<and> (\<forall>j<k. \<not> P (xs ! j))"
proof (induction xs arbitrary: k)
  case Nil
  then show ?case by simp
next
  case (Cons x xs)
  show ?case
  proof (cases "P x")
    case True
    with Cons.prems show ?thesis by simp
  next
    case False
    with Cons.prems obtain k' where k': "findIndex P xs = Some k'" "k = Suc k'" by auto
    from Cons.IH[OF k'(1)] False k'(2) show ?thesis
      by (auto simp: less_Suc_eq_0_disj)
  qed
qed

lemma findIndex_None: "(findIndex P xs = None) = (\<forall>x\<in>set xs. \<not> P x)"
  by (induction xs) auto

lemma findIndex_find:
  "List.find P xs = map_option (\<lambda>k. xs ! k) (findIndex P xs)"
  by (induction xs) (auto simp: option.map_comp comp_def)

lemma cancelBooking_nextId [simp]: "nextId (cancelBooking ref st) = nextId st"
  by (simp add: cancelBooking_def Let_def split: option.splits)

lemma cancelBooking_length [simp]: "length (bookings (cancelBooking ref st)) = length (bookings st)"
  by (simp add: cancelBooking_def Let_def split: option.splits)

lemma cancelBooking_ids [simp]:
  "map id_no (bookings (cancelBooking ref st)) = map id_no (bookings st)"
  by (auto simp add: cancelBooking_def Let_def map_update list_update_same_conv dest: findIndex_Some split: option.splits)

lemma cancelBooking_travelType [simp]:
  "map travelType (bookings (cancelBooking ref st)) = map travelType (bookings st)"
  by (auto simp add: cancelBooking_def Let_def map_update list_update_same_conv dest: findIndex_Some split: option.splits)

section \<open>Creation\<close>

text \<open>
  C1. A call of \<^verbatim>\<open>bookTicket\<close> throws the invalid-route error if and only if the two
  components of the route are equal, whatever the name, the third argument and the state
  are; it throws nothing else, and it returns a booking if and only if they differ.
  When it throws, the state is the one it started from. When it returns, the booking is
  a new one: its id is the value of the counter, which no earlier booking was given, its
  name and route are the arguments, its travel type is Flight and its status booked; the
  array is the old array with this booking appended, the counter is one higher, and the
  console has the creation line added. Nothing but the route decides between the two.
\<close>

theorem bookTicket_invalid_route_iff:
  "(fst (bookTicket n r s st) = Inl (throwInvalidRouteError r)) = (fst r = snd r)
   \<and> (\<exists>e. fst (bookTicket n r s st) = Inl e) = (fst r = snd r)
   \<and> (\<exists>b. fst (bookTicket n r s st) = Inr b) = (fst r \<noteq> snd r)
   \<and> (fst r = snd r \<longrightarrow> bookTicket n r s st = (Inl (throwInvalidRouteError r), st))
   \<and> (fst r \<noteq> snd r \<longrightarrow>
        (\<exists>b. bookTicket n r s st =
               (Inr b, st\<lparr>bookings := bookings st @ [b], nextId := nextId st + 1,
                          console := console st @ [BookingCreated n (fst r) (snd r)]\<rparr>)
             \<and> b = \<lparr>id_no = nextId st, name = n, route = r, travelType = Flight,
                     status = Booked,
                     mealPreference = (if truthy s then s else Some ''Vegetarian'')\<rparr>))"
proof (cases "fst r = snd r")
  case True
  then show ?thesis by (simp add: bookTicket_def)
next
  case False
  then show ?thesis by (simp add: bookTicket_def Let_def log_def)
qed

theorem bookTicket_invalid_route_iff_witness:
  "bookTicket ''Error Test'' (''Mumbai'', ''Mumbai'') None initial
     = (Inl (Error ''Invalid route: Mumbai and Mumbai cannot be the same''), initial)
   \<and> bookTicket ''John Doe'' (''New York'', ''London'') None initial
     = (Inr \<lparr>id_no = 1, name = ''John Doe'', route = (''New York'', ''London''),
              travelType = Flight, status = Booked, mealPreference = Some ''Vegetarian''\<rparr>,
        \<lparr>bookings = [\<lparr>id_no = 1, name = ''John Doe'', route = (''New York'', ''London''),
                       travelType = Flight, status = Booked,
                       mealPreference = Some ''Vegetarian''\<rparr>],
         nextId = 2,
         console = [BookingCreated ''John Doe'' ''New York'' ''London'']\<rparr>)"
  using bookTicket_invalid_route_iff [of "''Error Test''" "(''Mumbai'', ''Mumbai'')" None initial]
    bookTicket_invalid_route_iff [of "''John Doe''" "(''New York'', ''London'')" None initial]
  by (simp add: throwInvalidRouteError_def truthy_def initial_def)

text \<open>
  C2, as the specification states it, fails for the empty string: the source tests the
  third argument for truthiness (\<^verbatim>\<open>seatType ? undefined : "Vegetarian"\<close> and
  \<^verbatim>\<open>if (seatType)\<close>), and the empty string is falsy, so a call with the preference
  \<^verbatim>\<open>""\<close> returns a booking whose preference is \<^verbatim>\<open>"Vegetarian"\<close>.
\<close>

theorem bookTicket_empty_preference_counterexample:
  "fst (bookTicket ''John Doe'' (''New York'', ''London'') (Some '''') initial)
     = Inr \<lparr>id_no = 1, name = ''John Doe'', route = (''New York'', ''London''),
            travelType = Flight, status = Booked, mealPreference = Some ''Vegetarian''\<rparr>
   \<and> Some ''Vegetarian'' \<noteq> Some ''''"
  by (simp add: bookTicket_def Let_def truthy_def initial_def)

text \<open>
  C2, amended. For every successful call of \<^verbatim>\<open>bookTicket\<close>: without a third argument,
  or with the empty string as third argument, the returned booking has the meal
  preference \<^verbatim>\<open>"Vegetarian"\<close>; with a non-empty string as third argument, its meal
  preference is exactly that string.
\<close>

theorem bookTicket_mealPreference:
  assumes "fst r \<noteq> snd r"
  shows "\<exists>b. fst (bookTicket n r s st) = Inr b
           \<and> mealPreference b =
               (case s of None \<Rightarrow> Some ''Vegetarian''
                | Some v \<Rightarrow> if v = '''' then Some ''Vegetarian'' else Some v)"
  using assms by (simp add: bookTicket_def Let_def truthy_def split: option.splits)

theorem bookTicket_mealPreference_witness:
  "mealPreference (projr (fst (bookTicket ''John Doe'' (''New York'', ''London'') None initial)))
     = Some ''Vegetarian''
   \<and> mealPreference (projr (fst (bookTicket ''Jane Smith'' (''Paris'', ''Berlin'') (Some ''Business'') initial)))
     = Some ''Business''
   \<and> mealPreference (projr (fst (bookTicket ''Jane Smith'' (''Paris'', ''Berlin'') (Some '''') initial)))
     = Some ''Vegetarian''"
  using bookTicket_mealPreference [of "(''New York'', ''London'')" "''John Doe''" None initial]
    bookTicket_mealPreference [of "(''Paris'', ''Berlin'')" "''Jane Smith''" "Some ''Business''" initial]
    bookTicket_mealPreference [of "(''Paris'', ''Berlin'')" "''Jane Smith''" "Some ''''" initial]
  by auto

section \<open>The state reached by a sequence of calls\<close>

lemma run_Nil [simp]: "run [] st = st"
  by (simp add: run_def)

lemma run_Cons [simp]: "run (c # cs) st = run cs (step c st)"
  by (simp add: run_def)

lemma run_snoc [simp]: "run (cs @ [c]) st = step c (run cs st)"
  by (simp add: run_def)

text \<open>
  A step is a returning \<^verbatim>\<open>bookTicket\<close>, which appends one booking and advances the
  counter, or a throwing one, which changes nothing, or one of the other calls, which
  keep the counter, the length of the array and the ids in it.
\<close>

lemma step_bookTicket_returns:
  assumes "fst r \<noteq> snd r"
  shows "\<exists>b. fst (bookTicket n r s st) = Inr b \<and> id_no b = nextId st
           \<and> travelType b = Flight \<and> status b = Booked
           \<and> bookings (step (CallBookTicket n r s) st) = bookings st @ [b]
           \<and> nextId (step (CallBookTicket n r s) st) = nextId st + 1"
  using bookTicket_returns [OF assms, of n s st] by auto

lemma step_other:
  assumes "\<And>n r s. c \<noteq> CallBookTicket n r s"
  shows "nextId (step c st) = nextId st"
    and "map id_no (bookings (step c st)) = map id_no (bookings st)"
    and "map travelType (bookings (step c st)) = map travelType (bookings st)"
    and "length (bookings (step c st)) = length (bookings st)"
  using assms by (cases c; simp)+

text \<open>The example scenario, evaluated.\<close>

lemma example_bookings:
  "bookings (run example_calls initial) =
     [\<lparr>id_no = 1, name = ''John Doe'', route = (''New York'', ''London''),
       travelType = Flight, status = Cancelled, mealPreference = Some ''Vegetarian''\<rparr>,
      \<lparr>id_no = 2, name = ''Jane Smith'', route = (''Paris'', ''Berlin''),
       travelType = Flight, status = Booked, mealPreference = Some ''Business''\<rparr>]"
  by (simp add: example_calls_def bookTicket_def Let_def truthy_def initial_def
        cancelBooking_def log_def)

lemma example_nextId: "nextId (run example_calls initial) = 3"
  by (simp add: example_calls_def bookTicket_def Let_def truthy_def initial_def
        cancelBooking_def log_def)

lemma example_prefix:
  "bookings (run (take 2 example_calls) initial) =
     [\<lparr>id_no = 1, name = ''John Doe'', route = (''New York'', ''London''),
       travelType = Flight, status = Booked, mealPreference = Some ''Vegetarian''\<rparr>,
      \<lparr>id_no = 2, name = ''Jane Smith'', route = (''Paris'', ''Berlin''),
       travelType = Flight, status = Booked, mealPreference = Some ''Business''\<rparr>]"
  "nextId (run (take 2 example_calls) initial) = 3"
  by (simp_all add: example_calls_def bookTicket_def Let_def truthy_def initial_def log_def)

section \<open>Identifiers\<close>

lemma upto_shift: "map (\<lambda>k. i + int k) [0..<n] = [i .. i + int n - 1]"
proof (induction n)
  case 0
  then show ?case by simp
next
  case (Suc n)
  have "[i .. i + int (Suc n) - 1] = [i .. i + int n - 1] @ [i + int n]"
    using upto_rec2 [of i "i + int n"] by simp
  with Suc show ?case by simp
qed

lemma returned_ids:
  "map id_no (returned cs st) = [nextId st .. nextId st + int (length (returned cs st)) - 1]
   \<and> nextId (run cs st) = nextId st + int (length (returned cs st))"
proof (induction cs arbitrary: st)
  case Nil
  then show ?case by simp
next
  case (Cons c cs)
  show ?case
  proof (cases "\<exists>n r s. c = CallBookTicket n r s \<and> fst r \<noteq> snd r")
    case True
    then obtain n r s where c: "c = CallBookTicket n r s" and r: "fst r \<noteq> snd r" by blast
    from step_bookTicket_returns [OF r, of n s st] obtain b where
      b: "fst (bookTicket n r s st) = Inr b" "id_no b = nextId st"
         "nextId (step c st) = nextId st + 1"
      unfolding c by blast
    have ret: "returned (c # cs) st = b # returned cs (step c st)"
      using b(1) by (simp add: c)
    let ?m = "length (returned cs (step c st))"
    have "[nextId st .. nextId st + int (Suc ?m) - 1]
            = nextId st # [nextId st + 1 .. nextId st + 1 + int ?m - 1]"
      using upto_rec1 [of "nextId st" "nextId st + int ?m"] by (simp add: add.commute)
    with Cons.IH [of "step c st"] b ret show ?thesis by simp
  next
    case False
    have same: "nextId (step c st) = nextId st"
    proof (cases c)
      case (CallBookTicket n r s)
      with False have "fst r = snd r" by simp
      then show ?thesis by (simp add: CallBookTicket bookTicket_throws)
    qed simp_all
    have ret: "returned (c # cs) st = returned cs (step c st)"
    proof (cases c)
      case (CallBookTicket n r s)
      with False have "fst r = snd r" by simp
      then show ?thesis by (simp add: CallBookTicket bookTicket_throws)
    qed simp_all
    with Cons.IH [of "step c st"] same show ?thesis by simp
  qed
qed

text \<open>
  C3. For every sequence of calls from the initial state, the ids of the bookings returned
  by the successful \<^verbatim>\<open>bookTicket\<close> calls are, in the order of the calls, 1, 2, .., m: each
  is strictly greater than all ids assigned before it, none is reused and none is skipped.
  The counter ends at m + 1, so the calls that throw (and all other calls) consume no id.
\<close>

theorem ids_sequential:
  "map id_no (returned calls initial) = [1 .. int (length (returned calls initial))]
   \<and> sorted_wrt (<) (map id_no (returned calls initial))
   \<and> nextId (run calls initial) = 1 + int (length (returned calls initial))"
proof -
  have n: "nextId initial = 1" by (simp add: initial_def)
  from returned_ids [of calls initial] n
  have 1: "map id_no (returned calls initial) = [1 .. int (length (returned calls initial))]"
    and 2: "nextId (run calls initial) = 1 + int (length (returned calls initial))"
    by simp_all
  have "sorted_wrt (<) [1 .. int (length (returned calls initial))]"
    by (rule sorted_wrt_upto)
  with 1 2 show ?thesis by simp
qed

theorem ids_sequential_witness:
  "map id_no (returned
     (example_calls @ [CallBookTicket ''Bob Johnson'' (''Tokyo'', ''Sydney'') None]) initial)
     = [1, 2, 3]
   \<and> nextId (run
     (example_calls @ [CallBookTicket ''Bob Johnson'' (''Tokyo'', ''Sydney'') None]) initial)
     = 4"
  using ids_sequential [of
     "example_calls @ [CallBookTicket ''Bob Johnson'' (''Tokyo'', ''Sydney'') None]"]
  by (simp add: example_calls_def bookTicket_def Let_def truthy_def initial_def
        cancelBooking_def log_def)

section \<open>Cancellation\<close>

lemma findIndex_ids:
  "map id_no xs = map id_no ys \<Longrightarrow>
     findIndex (\<lambda>b. id_no b = i) xs = findIndex (\<lambda>b. id_no b = i) ys"
proof (induction xs arbitrary: ys)
  case Nil
  then show ?case by simp
next
  case (Cons x xs)
  then obtain y ys' where "ys = y # ys'" "id_no x = id_no y" "map id_no xs = map id_no ys'"
    by (cases ys) auto
  with Cons.IH [of ys'] show ?case by simp
qed

lemma cancelBooking_all_matches:
  assumes "distinct (map id_no (bookings st))"
    and "b \<in> set (bookings (cancelBooking ref st))" and "id_no b = refId ref"
  shows "status b = Cancelled"
proof (cases "findIndex (\<lambda>b. id_no b = refId ref) (bookings st)")
  case None
  then have "\<forall>x\<in>set (bookings st). id_no x \<noteq> refId ref" by (simp add: findIndex_None)
  moreover from None have "bookings (cancelBooking ref st) = bookings st"
    by (simp add: cancelBooking_def)
  ultimately show ?thesis using assms(2,3) by simp
next
  case (Some k)
  let ?bs = "bookings st"
  let ?bs' = "?bs[k := (?bs ! k)\<lparr>status := Cancelled\<rparr>]"
  from findIndex_Some [OF Some] have kl: "k < length ?bs" and kp: "id_no (?bs ! k) = refId ref"
    by simp_all
  from Some have b': "bookings (cancelBooking ref st) = ?bs'" by (simp add: cancelBooking_def)
  with assms(2) obtain j where j: "j < length ?bs" "b = ?bs' ! j"
    by (auto simp: in_set_conv_nth)
  have "j = k"
  proof (rule ccontr)
    assume ne: "j \<noteq> k"
    with j have "b = ?bs ! j" by simp
    with assms(3) kp have "map id_no ?bs ! j = map id_no ?bs ! k" using j(1) kl by simp
    moreover have "j < length (map id_no ?bs)" "k < length (map id_no ?bs)"
      using j(1) kl by simp_all
    ultimately have "j = k"
      using assms(1) nth_eq_iff_index_eq [of "map id_no ?bs" j k] by blast
    with ne show False by simp
  qed
  with j kl show ?thesis by simp
qed

text \<open>
  C4. In every state, for every reference whose id is the id of a booking of the array:
  \<^verbatim>\<open>cancelBooking\<close> sets the status of the first booking with that id to cancelled and
  changes nothing else in the array (where the ids of the array are distinct, as they are
  in every reachable state, every booking with that id is then cancelled); a lookup of
  the id afterwards finds a cancelled booking; a second call leaves the array and the
  counter as the first call left them; and both calls print the cancelled line, neither
  the not-found line, and nothing is thrown.
\<close>

theorem cancelBooking_idempotent:
  assumes "refId ref \<in> id_no ` set (bookings st)"
  shows "(\<exists>k<length (bookings st).
            id_no (bookings st ! k) = refId ref
            \<and> (\<forall>j<k. id_no (bookings st ! j) \<noteq> refId ref)
            \<and> bookings (cancelBooking ref st)
                = (bookings st)[k := (bookings st ! k)\<lparr>status := Cancelled\<rparr>])
    \<and> (distinct (map id_no (bookings st)) \<longrightarrow>
          (\<forall>b\<in>set (bookings (cancelBooking ref st)).
             id_no b = refId ref \<longrightarrow> status b = Cancelled))
    \<and> (\<exists>b. List.find (\<lambda>b. id_no b = refId ref) (bookings (cancelBooking ref st)) = Some b
            \<and> status b = Cancelled)
    \<and> bookings (cancelBooking ref (cancelBooking ref st)) = bookings (cancelBooking ref st)
    \<and> nextId (cancelBooking ref (cancelBooking ref st)) = nextId (cancelBooking ref st)
    \<and> console (cancelBooking ref st) = console st @ [BookingCancelled (refId ref)]
    \<and> console (cancelBooking ref (cancelBooking ref st))
        = console st @ [BookingCancelled (refId ref), BookingCancelled (refId ref)]"
proof -
  let ?P = "\<lambda>b. id_no b = refId ref"
  let ?bs = "bookings st"
  from assms have "findIndex ?P ?bs \<noteq> None"
    by (auto simp: findIndex_None)
  then obtain k where k: "findIndex ?P ?bs = Some k" by blast
  from findIndex_Some [OF k]
  have kl: "k < length ?bs" and kp: "id_no (?bs ! k) = refId ref"
    and kf: "\<forall>j<k. id_no (?bs ! j) \<noteq> refId ref" by simp_all
  let ?bs' = "?bs[k := (?bs ! k)\<lparr>status := Cancelled\<rparr>]"
  have c1: "cancelBooking ref st = log (BookingCancelled (refId ref)) (st\<lparr>bookings := ?bs'\<rparr>)"
    using k by (simp add: cancelBooking_def)
  have b1: "bookings (cancelBooking ref st) = ?bs'" by (simp add: c1)
  have ids: "map id_no ?bs' = map id_no ?bs"
    using kl by (simp add: map_update list_update_same_conv)
  have k': "findIndex ?P ?bs' = Some k"
    using findIndex_ids [OF ids] k by simp
  have c2: "cancelBooking ref (cancelBooking ref st)
             = log (BookingCancelled (refId ref))
                 ((cancelBooking ref st)\<lparr>bookings := ?bs'[k := (?bs' ! k)\<lparr>status := Cancelled\<rparr>]\<rparr>)"
    using k' b1 by (simp add: cancelBooking_def [of ref "cancelBooking ref st"])
  have same: "?bs'[k := (?bs' ! k)\<lparr>status := Cancelled\<rparr>] = ?bs'"
    using kl by simp
  have f: "List.find ?P ?bs' = Some (?bs' ! k)"
    using k' by (simp add: findIndex_find)
  have "status (?bs' ! k) = Cancelled" using kl by simp
  with f b1 have part2: "\<exists>b. List.find ?P (bookings (cancelBooking ref st)) = Some b \<and> status b = Cancelled"
    by simp
  have part1: "\<exists>k<length ?bs. id_no (?bs ! k) = refId ref \<and> (\<forall>j<k. id_no (?bs ! j) \<noteq> refId ref)
                 \<and> bookings (cancelBooking ref st) = ?bs[k := (?bs ! k)\<lparr>status := Cancelled\<rparr>]"
    using kl kp kf b1 by blast
  have part1': "distinct (map id_no ?bs) \<longrightarrow>
          (\<forall>b\<in>set (bookings (cancelBooking ref st)). id_no b = refId ref \<longrightarrow> status b = Cancelled)"
    using cancelBooking_all_matches [of st _ ref] by blast
  have part3: "bookings (cancelBooking ref (cancelBooking ref st)) = bookings (cancelBooking ref st)"
    using c2 same b1 by simp
  have part4: "nextId (cancelBooking ref (cancelBooking ref st)) = nextId (cancelBooking ref st)"
    by simp
  have part5: "console (cancelBooking ref st) = console st @ [BookingCancelled (refId ref)]"
    by (simp add: c1)
  have part6: "console (cancelBooking ref (cancelBooking ref st))
        = console st @ [BookingCancelled (refId ref), BookingCancelled (refId ref)]"
    using c2 part5 by simp
  from part1 part1' part2 part3 part4 part5 part6 show ?thesis by blast
qed

theorem cancelBooking_idempotent_witness:
  "refId (RefNumber 2) \<in> id_no ` set (bookings (run example_calls initial))
   \<and> distinct (map id_no (bookings (run example_calls initial)))
   \<and> map status (bookings (run example_calls initial)) = [Cancelled, Booked]
   \<and> map status (bookings (cancelBooking (RefNumber 2) (run example_calls initial)))
        = [Cancelled, Cancelled]
   \<and> bookings (cancelBooking (RefNumber 2) (cancelBooking (RefNumber 2) (run example_calls initial)))
        = bookings (cancelBooking (RefNumber 2) (run example_calls initial))"
proof -
  have h: "refId (RefNumber 2) \<in> id_no ` set (bookings (run example_calls initial))"
    by (simp add: example_bookings)
  have "map status (bookings (cancelBooking (RefNumber 2) (run example_calls initial)))
        = [Cancelled, Cancelled]"
    by (simp add: cancelBooking_def example_bookings)
  with h cancelBooking_idempotent [OF h] show ?thesis
    by (simp add: example_bookings)
qed

text \<open>
  C5. In every state, for every reference (a number or a booking) whose id is the id of
  no booking of the array, \<^verbatim>\<open>cancelBooking\<close> throws nothing, prints the not-found line
  and changes nothing else: the array, with every field of every booking, and the counter
  are as before.
\<close>

theorem cancelBooking_not_found:
  assumes "refId ref \<notin> id_no ` set (bookings st)"
  shows "cancelBooking ref st = st\<lparr>console := console st @ [BookingNotFound (refId ref)]\<rparr>
         \<and> bookings (cancelBooking ref st) = bookings st
         \<and> nextId (cancelBooking ref st) = nextId st"
proof -
  from assms have "findIndex (\<lambda>b. id_no b = refId ref) (bookings st) = None"
    by (force simp: findIndex_None)
  then show ?thesis by (simp add: cancelBooking_def log_def)
qed

theorem cancelBooking_not_found_witness:
  "refId (RefNumber 7) \<notin> id_no ` set (bookings (run example_calls initial))
   \<and> bookings (cancelBooking (RefNumber 7) (run example_calls initial))
        = bookings (run example_calls initial)
   \<and> nextId (cancelBooking (RefNumber 7) (run example_calls initial)) = 3
   \<and> console (cancelBooking (RefNumber 7) (run example_calls initial))
        = console (run example_calls initial) @ [BookingNotFound 7]"
proof -
  have h: "refId (RefNumber 7) \<notin> id_no ` set (bookings (run example_calls initial))"
    by (simp add: example_bookings)
  from h cancelBooking_not_found [OF h] show ?thesis
    by (simp add: example_nextId)
qed

section \<open>A rejected booking\<close>

text \<open>
  C6. When the two components of the route are equal, \<^verbatim>\<open>bookTicket\<close> throws and the state
  it leaves is the state it started from: the array and the counter are unchanged, the
  counts of a following \<^verbatim>\<open>printSummary\<close> are the counts it would have reported before,
  and so is everything it prints.
\<close>

theorem bookTicket_throw_atomic:
  assumes "fst r = snd r"
  shows "fst (bookTicket n r s st) = Inl (throwInvalidRouteError r)
         \<and> snd (bookTicket n r s st) = st
         \<and> bookings (snd (bookTicket n r s st)) = bookings st
         \<and> nextId (snd (bookTicket n r s st)) = nextId st
         \<and> statusCounts (snd (bookTicket n r s st)) = statusCounts st
         \<and> printSummary (snd (bookTicket n r s st)) = printSummary st"
  using assms by (simp add: bookTicket_throws)

theorem bookTicket_throw_atomic_witness:
  "fst (''Tokyo'', ''Tokyo'') = snd (''Tokyo'', ''Tokyo'')
   \<and> snd (bookTicket ''X'' (''Tokyo'', ''Tokyo'') None (run (take 2 example_calls) initial))
       = run (take 2 example_calls) initial
   \<and> length (bookings (snd (bookTicket ''X'' (''Tokyo'', ''Tokyo'') None
        (run (take 2 example_calls) initial)))) = 2
   \<and> nextId (snd (bookTicket ''X'' (''Tokyo'', ''Tokyo'') None
        (run (take 2 example_calls) initial))) = 3"
proof -
  have h: "fst (''Tokyo'', ''Tokyo'') = snd (''Tokyo'', ''Tokyo'')" by simp
  from bookTicket_throw_atomic [OF h, of "''X''" None "run (take 2 example_calls) initial"]
  show ?thesis by (simp add: example_prefix)
qed

section \<open>Summary\<close>

lemma fold_increment:
  "booked (fold (\<lambda>booking sc. increment (status booking) sc) bs sc)
   + cancelled (fold (\<lambda>booking sc. increment (status booking) sc) bs sc)
   + pending (fold (\<lambda>booking sc. increment (status booking) sc) bs sc)
   = booked sc + cancelled sc + pending sc + length bs"
proof (induction bs arbitrary: sc)
  case Nil
  then show ?case by simp
next
  case (Cons b bs)
  show ?case by (cases "status b") (simp_all add: Cons.IH)
qed

lemma statusCounts_total:
  "booked (statusCounts st) + cancelled (statusCounts st) + pending (statusCounts st)
     = length (bookings st)"
  by (simp add: statusCounts_def fold_increment)

lemma printSummary_console:
  "console (printSummary st) = console st @
     [SummaryHeader, TotalBookings (length (bookings st)),
      StatusCountsLine (booked (statusCounts st)) (cancelled (statusCounts st))
        (pending (statusCounts st))]"
  by (simp add: printSummary_def Let_def statusCounts_def)

text \<open>
  C7. In every state reached by a sequence of calls from the initial state, the three
  counts that \<^verbatim>\<open>printSummary\<close> computes add up to the length of the array, and
  \<^verbatim>\<open>printSummary\<close> prints that length and those three counts. (The sum holds in every
  state, reachable or not: a status is one of the three variants.)
\<close>

theorem summary_counts_sum_to_total:
  "booked (statusCounts (run calls initial)) + cancelled (statusCounts (run calls initial))
     + pending (statusCounts (run calls initial)) = length (bookings (run calls initial))
   \<and> console (printSummary (run calls initial)) = console (run calls initial) @
       [SummaryHeader, TotalBookings (length (bookings (run calls initial))),
        StatusCountsLine (booked (statusCounts (run calls initial)))
          (cancelled (statusCounts (run calls initial)))
          (pending (statusCounts (run calls initial)))]"
  by (simp only: statusCounts_total printSummary_console simp_thms)

theorem summary_counts_sum_to_total_witness:
  "console (printSummary (run example_calls initial)) = console (run example_calls initial) @
       [SummaryHeader, TotalBookings 2, StatusCountsLine 1 1 0]
   \<and> (1::nat) + 1 + 0 = 2"
  using summary_counts_sum_to_total [of example_calls]
  by (simp add: example_bookings statusCounts_def)

section \<open>Query by status\<close>

lemma queryByStatus_spec_filter:
  "queryByStatus_spec s bs = filter (\<lambda>booking. status booking = s) bs"
  by (induction bs) simp_all

text \<open>
  C8. For every state, status and callback, what \<^verbatim>\<open>getBookingsByStatus\<close> does is what one
  application of the callback to the specification's query result does, in the state of
  the call: the bookings with the given status, in the order of the array. A callback
  that records its argument records exactly that one sequence.
\<close>

theorem getBookingsByStatus_refines_spec:
  "getBookingsByStatus s callback st = callback (queryByStatus_spec s (bookings st)) st
   \<and> getBookingsByStatus s (\<lambda>result st'. [result]) st = [queryByStatus_spec s (bookings st)]"
  by (simp add: getBookingsByStatus_def queryByStatus_spec_filter)

theorem getBookingsByStatus_refines_spec_witness:
  "getBookingsByStatus Booked (\<lambda>result st'. [result]) (run example_calls initial)
     = [[\<lparr>id_no = 2, name = ''Jane Smith'', route = (''Paris'', ''Berlin''),
         travelType = Flight, status = Booked, mealPreference = Some ''Business''\<rparr>]]"
  using getBookingsByStatus_refines_spec [of Booked "\<lambda>result st'. [result]" "run example_calls initial"]
  by (simp add: example_bookings)

section \<open>Reachable states\<close>

lemma step_keeps_booked_flight:
  assumes "\<forall>b\<in>set (bookings st). status b \<noteq> Pending \<and> travelType b = Flight"
  shows "\<forall>b\<in>set (bookings (step c st)). status b \<noteq> Pending \<and> travelType b = Flight"
proof (cases c)
  case (CallBookTicket n r s)
  show ?thesis
  proof (cases "fst r = snd r")
    case True
    with assms show ?thesis by (simp add: CallBookTicket bookTicket_throws)
  next
    case False
    from step_bookTicket_returns [OF False, of n s st] assms show ?thesis
      unfolding CallBookTicket by auto
  qed
next
  case (CallCancelBooking ref)
  show ?thesis
  proof (cases "findIndex (\<lambda>b. id_no b = refId ref) (bookings st)")
    case None
    with assms show ?thesis by (simp add: CallCancelBooking cancelBooking_def)
  next
    case (Some k)
    from findIndex_Some [OF Some] have kl: "k < length (bookings st)" by simp
    then have mem: "bookings st ! k \<in> set (bookings st)" by simp
    have "set ((bookings st)[k := (bookings st ! k)\<lparr>status := Cancelled\<rparr>])
            \<subseteq> insert ((bookings st ! k)\<lparr>status := Cancelled\<rparr>) (set (bookings st))"
      by (rule set_update_subset_insert)
    with assms mem show ?thesis
      by (auto simp: CallCancelBooking cancelBooking_def Some)
  qed
qed (use assms in simp_all)

lemma run_keeps_booked_flight:
  "\<forall>b\<in>set (bookings (run calls initial)). status b \<noteq> Pending \<and> travelType b = Flight"
proof (induction calls rule: rev_induct)
  case Nil
  then show ?case by (simp add: initial_def)
next
  case (snoc c calls)
  from step_keeps_booked_flight [OF snoc.IH, of c] show ?case by simp
qed

lemma step_status_change:
  assumes "k < length (bookings st)"
    and "status (bookings (step c st) ! k) \<noteq> status (bookings st ! k)"
  shows "(\<exists>ref. c = CallCancelBooking ref) \<and> status (bookings (step c st) ! k) = Cancelled"
proof (cases c)
  case (CallBookTicket n r s)
  show ?thesis
  proof (cases "fst r = snd r")
    case True
    with assms show ?thesis by (simp add: CallBookTicket bookTicket_throws)
  next
    case False
    from step_bookTicket_returns [OF False, of n s st] assms show ?thesis
      unfolding CallBookTicket by (auto simp: nth_append)
  qed
next
  case (CallCancelBooking ref)
  show ?thesis
  proof (cases "findIndex (\<lambda>b. id_no b = refId ref) (bookings st)")
    case None
    with assms show ?thesis by (simp add: CallCancelBooking cancelBooking_def)
  next
    case (Some j)
    with assms show ?thesis
      by (cases "k = j") (simp_all add: CallCancelBooking cancelBooking_def)
  qed
qed (use assms in simp_all)

lemma step_new_booking:
  assumes "length (bookings st) \<le> k" and "k < length (bookings (step c st))"
  shows "(\<exists>n r s. c = CallBookTicket n r s) \<and> status (bookings (step c st) ! k) = Booked"
proof (cases c)
  case (CallBookTicket n r s)
  show ?thesis
  proof (cases "fst r = snd r")
    case True
    with assms show ?thesis by (simp add: CallBookTicket bookTicket_throws)
  next
    case False
    from step_bookTicket_returns [OF False, of n s st] obtain b where
      b: "status b = Booked" "bookings (step c st) = bookings st @ [b]"
      unfolding CallBookTicket by blast
    with assms have "k = length (bookings st)" by simp
    with b show ?thesis by (simp add: CallBookTicket)
  qed
qed (use assms in simp_all)

text \<open>
  C9. In every state reached by a sequence of calls from the initial state, no booking has
  the status pending and every booking has the travel type Flight. A further call changes
  the status of a booking of the array only if it is a \<^verbatim>\<open>cancelBooking\<close>, and then from
  booked to cancelled; a booking it adds comes from a \<^verbatim>\<open>bookTicket\<close> and has the status
  booked.
\<close>

theorem status_only_booked_to_cancelled:
  "(\<forall>b\<in>set (bookings (run calls initial)). status b \<noteq> Pending \<and> travelType b = Flight)
   \<and> (\<forall>k<length (bookings (run calls initial)).
         status (bookings (step c (run calls initial)) ! k)
           \<noteq> status (bookings (run calls initial) ! k)
         \<longrightarrow> (\<exists>ref. c = CallCancelBooking ref)
             \<and> status (bookings (run calls initial) ! k) = Booked
             \<and> status (bookings (step c (run calls initial)) ! k) = Cancelled)
   \<and> (\<forall>k. length (bookings (run calls initial)) \<le> k
           \<and> k < length (bookings (step c (run calls initial)))
         \<longrightarrow> (\<exists>n r s. c = CallBookTicket n r s)
             \<and> status (bookings (step c (run calls initial)) ! k) = Booked)"
proof (intro conjI allI impI)
  show "\<forall>b\<in>set (bookings (run calls initial)). status b \<noteq> Pending \<and> travelType b = Flight"
    by (rule run_keeps_booked_flight)
next
  fix k
  assume k: "k < length (bookings (run calls initial))"
    and ch: "status (bookings (step c (run calls initial)) ! k)
               \<noteq> status (bookings (run calls initial) ! k)"
  from step_status_change [OF k ch]
  show "\<exists>ref. c = CallCancelBooking ref"
    and can: "status (bookings (step c (run calls initial)) ! k) = Cancelled"
    by simp_all
  from k have "bookings (run calls initial) ! k \<in> set (bookings (run calls initial))" by simp
  with run_keeps_booked_flight [of calls]
  have "status (bookings (run calls initial) ! k) \<noteq> Pending" by blast
  with ch can show "status (bookings (run calls initial) ! k) = Booked"
    by (cases "status (bookings (run calls initial) ! k)") simp_all
next
  fix k
  assume "length (bookings (run calls initial)) \<le> k
           \<and> k < length (bookings (step c (run calls initial)))"
  then have "(\<exists>n r s. c = CallBookTicket n r s)
             \<and> status (bookings (step c (run calls initial)) ! k) = Booked"
    using step_new_booking [of "run calls initial" k c] by simp
  then show "\<exists>n r s. c = CallBookTicket n r s"
    and "status (bookings (step c (run calls initial)) ! k) = Booked"
    by simp_all
qed

theorem status_only_booked_to_cancelled_witness:
  "map travelType (bookings (run example_calls initial)) = [Flight, Flight]
   \<and> map status (bookings (run example_calls initial)) = [Cancelled, Booked]
   \<and> map status (bookings (step (CallCancelBooking (RefNumber 2)) (run example_calls initial)))
       = [Cancelled, Cancelled]
   \<and> map status (bookings (step (CallBookTicket ''Bob Johnson'' (''Tokyo'', ''Sydney'') None)
         (run example_calls initial))) = [Cancelled, Booked, Booked]"
  using status_only_booked_to_cancelled [of example_calls "CallCancelBooking (RefNumber 2)"]
  by (simp add: example_bookings cancelBooking_def bookTicket_def Let_def truthy_def log_def)

lemma step_ids_positions:
  assumes "map id_no (bookings st) = map (\<lambda>k. int k + 1) [0..<length (bookings st)]"
    and "nextId st = int (length (bookings st)) + 1"
  shows "map id_no (bookings (step c st))
           = map (\<lambda>k. int k + 1) [0..<length (bookings (step c st))]
         \<and> nextId (step c st) = int (length (bookings (step c st))) + 1"
proof (cases "\<exists>n r s. c = CallBookTicket n r s")
  case True
  then obtain n r s where c: "c = CallBookTicket n r s" by blast
  show ?thesis
  proof (cases "fst r = snd r")
    case True
    with assms show ?thesis by (simp add: c bookTicket_throws)
  next
    case False
    from step_bookTicket_returns [OF False, of n s st] obtain b where
      "id_no b = nextId st" "bookings (step c st) = bookings st @ [b]"
      "nextId (step c st) = nextId st + 1"
      unfolding c by blast
    with assms show ?thesis by simp
  qed
next
  case False
  then have "\<And>n r s. c \<noteq> CallBookTicket n r s" by blast
  from step_other [OF this, of st] assms show ?thesis by simp
qed

lemma run_ids_positions:
  "map id_no (bookings (run calls initial))
     = map (\<lambda>k. int k + 1) [0..<length (bookings (run calls initial))]
   \<and> nextId (run calls initial) = int (length (bookings (run calls initial))) + 1"
proof (induction calls rule: rev_induct)
  case Nil
  then show ?case by (simp add: initial_def)
next
  case (snoc c calls)
  from step_ids_positions [of "run calls initial" c] snoc.IH show ?case by simp
qed

lemma distinct_single_match:
  assumes "distinct (map f xs)"
  shows "length (filter (\<lambda>x. f x = i) xs) \<le> 1"
  using assms
proof (induction xs)
  case Nil
  then show ?case by simp
next
  case (Cons x xs)
  show ?case
  proof (cases "f x = i")
    case True
    from Cons.prems have "f x \<notin> f ` set xs" by simp
    then have "\<forall>y\<in>set xs. f y \<noteq> f x" by (metis imageI)
    with True have "\<forall>y\<in>set xs. f y \<noteq> i" by simp
    then have "filter (\<lambda>x. f x = i) xs = []" by (simp add: filter_empty_conv)
    with True show ?thesis by simp
  next
    case False
    with Cons show ?thesis by simp
  qed
qed

text \<open>
  C10. In every state reached by a sequence of calls from the initial state, the booking
  at position \<open>i\<close> of the array has the id \<open>i + 1\<close> and the counter is the length of the
  array plus one; so the ids of the array are pairwise distinct, and for every id at most
  one booking of the array has it.
\<close>

theorem ids_are_positions:
  "(\<forall>i<length (bookings (run calls initial)).
       id_no (bookings (run calls initial) ! i) = int i + 1)
   \<and> nextId (run calls initial) = int (length (bookings (run calls initial))) + 1
   \<and> distinct (map id_no (bookings (run calls initial)))
   \<and> (\<forall>i. length (filter (\<lambda>b. id_no b = i) (bookings (run calls initial))) \<le> 1)"
proof -
  let ?bs = "bookings (run calls initial)"
  from run_ids_positions [of calls]
  have ids: "map id_no ?bs = map (\<lambda>k. int k + 1) [0..<length ?bs]"
    and nxt: "nextId (run calls initial) = int (length ?bs) + 1" by simp_all
  have pos: "\<forall>i<length ?bs. id_no (?bs ! i) = int i + 1"
  proof (intro allI impI)
    fix i assume i: "i < length ?bs"
    then have "id_no (?bs ! i) = map id_no ?bs ! i" by simp
    also have "\<dots> = map (\<lambda>k. int k + 1) [0..<length ?bs] ! i" by (simp only: ids)
    also have "\<dots> = int i + 1" using i by simp
    finally show "id_no (?bs ! i) = int i + 1" .
  qed
  have "distinct (map (\<lambda>k. int k + 1) [0..<length ?bs])"
    by (simp add: distinct_map inj_on_def)
  with ids have dist: "distinct (map id_no ?bs)" by simp
  from distinct_single_match [OF dist]
  have "\<forall>i. length (filter (\<lambda>b. id_no b = i) ?bs) \<le> 1" by blast
  with pos nxt dist show ?thesis by blast
qed

theorem ids_are_positions_witness:
  "map id_no (bookings (run example_calls initial)) = [1, 2]
   \<and> nextId (run example_calls initial) = 3
   \<and> length (bookings (run example_calls initial)) = 2
   \<and> filter (\<lambda>b. id_no b = 2) (bookings (run example_calls initial))
       = [\<lparr>id_no = 2, name = ''Jane Smith'', route = (''Paris'', ''Berlin''),
           travelType = Flight, status = Booked, mealPreference = Some ''Business''\<rparr>]"
  using ids_are_positions [of example_calls]
  by (simp add: example_bookings)

end
